theory Spec2Isabelle
  imports Main
begin

section \<open>The user collection and its documents\<close>

text \<open>
  The login and password-reset statics of the user model
  (\<^verbatim>\<open>findByCreds\<close>,
  \<^verbatim>\<open>findByEmailAndRequestResetPasswordCode\<close>,
  \<^verbatim>\<open>findByEmailAndRequestResetPasswordToken\<close>,
  \<^verbatim>\<open>findByEmailAndResetPassword\<close>) work on Mongoose documents of the user
  collection. Only the fields these functions touch are modelled. Times are milliseconds
  since the epoch, as \<^verbatim>\<open>Date.getTime()\<close> gives them; the guess counter is a
  JavaScript number holding an integer and is modelled as an unbounded \<^typ>\<open>int\<close>
  (the loss of precision of a double beyond \<open>2^53\<close> is not modelled).
\<close>

record resetCode =
  code :: string
  codeRequestedAt :: int

record resetToken =
  token :: string
  tokenRequestedAt :: int

record user =
  email :: string
  password :: string
  resetPasswordCode :: "resetCode option"
  resetPasswordToken :: "resetToken option"
  resetPasswordCodeGuessCount :: int

text \<open>
  The collection is the list of the stored documents; the position of a document is its
  \<^verbatim>\<open>_id\<close>. A document loaded by \<^verbatim>\<open>findOne\<close> is an in-memory copy that
  remembers which paths were assigned since it was loaded. A path that is not set in the
  stored document reads as \<^verbatim>\<open>undefined\<close>, which is \<open>None\<close> here. The
  store itself does not fail: a rejected \<^verbatim>\<open>save()\<close> or a lost connection is
  not modelled, and calls on the collection run one after the other.
\<close>

datatype path = Password | ResetPasswordCode | ResetPasswordToken | ResetPasswordCodeGuessCount

record document =
  doc_id :: nat
  data :: user
  modifiedPaths :: "path set"

fun findFrom :: "nat \<Rightarrow> (user \<Rightarrow> bool) \<Rightarrow> user list \<Rightarrow> document option" where
  "findFrom k P [] = None"
| "findFrom k P (u # us) =
     (if P u then Some \<lparr>doc_id = k, data = u, modifiedPaths = {}\<rparr> else findFrom (Suc k) P us)"

definition findOne :: "(user \<Rightarrow> bool) \<Rightarrow> user list \<Rightarrow> document option" where
  \<comment> \<open>\<^verbatim>\<open>this.findOne(filter)\<close>: the first stored document that matches, or null\<close>
  "findOne P db = findFrom 0 P db"

text \<open>
  Assignments to a path of the in-memory document mark the path as modified. Mongoose does
  not mark a path when the value assigned equals the value the document holds: assigning
  to \<^verbatim>\<open>password\<close> the very string that is stored marks nothing, so that
  \<^verbatim>\<open>save()\<close> neither hashes nor writes the password. For the other three
  paths the model marks the path at every assignment: the object assigned to
  \<^verbatim>\<open>resetPasswordCode\<close> replaces the nested path, and for
  \<^verbatim>\<open>resetPasswordToken\<close> and the guess count an equal value is written
  back unchanged.
\<close>

definition assign_password :: "string \<Rightarrow> document \<Rightarrow> document" where
  "assign_password v doc =
     (if v = password (data doc) then doc
      else doc\<lparr>data := (data doc)\<lparr>password := v\<rparr>,
               modifiedPaths := insert Password (modifiedPaths doc)\<rparr>)"

definition assign_resetPasswordCode :: "resetCode option \<Rightarrow> document \<Rightarrow> document" where
  "assign_resetPasswordCode v doc =
     doc\<lparr>data := (data doc)\<lparr>resetPasswordCode := v\<rparr>,
         modifiedPaths := insert ResetPasswordCode (modifiedPaths doc)\<rparr>"

definition assign_resetPasswordToken :: "resetToken option \<Rightarrow> document \<Rightarrow> document" where
  "assign_resetPasswordToken v doc =
     doc\<lparr>data := (data doc)\<lparr>resetPasswordToken := v\<rparr>,
         modifiedPaths := insert ResetPasswordToken (modifiedPaths doc)\<rparr>"

definition assign_resetPasswordCodeGuessCount :: "int \<Rightarrow> document \<Rightarrow> document" where
  "assign_resetPasswordCodeGuessCount v doc =
     doc\<lparr>data := (data doc)\<lparr>resetPasswordCodeGuessCount := v\<rparr>,
         modifiedPaths := insert ResetPasswordCodeGuessCount (modifiedPaths doc)\<rparr>"

text \<open>
  \<^verbatim>\<open>user.update({ $unset: { path: "" } })\<close> sends the update for the document's
  \<^verbatim>\<open>_id\<close> to the collection; the in-memory copy keeps its value.
\<close>

definition update_unset_resetPasswordCode :: "document \<Rightarrow> user list \<Rightarrow> user list" where
  "update_unset_resetPasswordCode doc db =
     db[doc_id doc := (db ! doc_id doc)\<lparr>resetPasswordCode := None\<rparr>]"

definition update_unset_resetPasswordToken :: "document \<Rightarrow> user list \<Rightarrow> user list" where
  "update_unset_resetPasswordToken doc db =
     db[doc_id doc := (db ! doc_id doc)\<lparr>resetPasswordToken := None\<rparr>]"

section \<open>Collaborators that are not part of the statics\<close>

text \<open>
  The statics call helpers whose code is elsewhere: the user methods
  \<^verbatim>\<open>sha256\<close> and \<^verbatim>\<open>hashString\<close>, the constants of
  \<^verbatim>\<open>utils\<close>, \<^verbatim>\<open>bcrypt.compare\<close>, and the built-ins
  \<^verbatim>\<open>Date.toISOString\<close>, \<^verbatim>\<open>String.toLowerCase\<close> and
  \<^verbatim>\<open>String.trim\<close>. They are parameters of the model, so that what is proved
  holds for the functions JavaScript provides, on every string. \<^verbatim>\<open>slowHash\<close>
  is the slow password hash the pre-save hook below applies.
\<close>

record deps =
  sha256 :: "string \<Rightarrow> string"
  hashString :: "string \<Rightarrow> string"
  slowHash :: "string \<Rightarrow> string"
  bcrypt_compare :: "string \<Rightarrow> string \<Rightarrow> bool"
  toISOString :: "int \<Rightarrow> string"
  toLowerCase :: "string \<Rightarrow> string"
  trim :: "string \<Rightarrow> string"
  RESET_PASSWORD_CODE_LENGTH :: nat
  RESET_PASSWORD_MAX_GUESS_COUNT :: int
  RESET_PASSWORD_CODE_TIME_PERIOD_LENGTH :: int
  RESET_PASSWORD_TOKEN_RANDOM_NUM_LENGTH :: nat
  RESET_PASSWORD_TOKEN_TIME_PERIOD_LENGTH :: int

text \<open>
  What one call observes of the clock and of the random generator: \<open>dates ev k\<close> is the
  time (in milliseconds) that the \<open>k\<close>-th evaluation of \<^verbatim>\<open>new Date()\<close> in the
  call yields, counted from 0 in evaluation order, and \<open>generateVerificationCode ev n\<close> is
  the string that \<^verbatim>\<open>utils.generateVerificationCode(n)\<close> returns in the call.
\<close>

record env =
  dates :: "nat \<Rightarrow> int"
  generateVerificationCode :: "nat \<Rightarrow> string"

definition preSave :: "deps \<Rightarrow> document \<Rightarrow> document" where
  \<comment> \<open>Modelled from the spec: the pre-save hook of the user schema, which is not among the
      source files. The statics assign the plain password and the plain reset code before
      \<^verbatim>\<open>save()\<close>; the spec has the record store the slow hash of the password
      (4.5) and the fast hash of the code (4.1), and the token verbatim (3).\<close>
  "preSave d doc =
     (let u = data doc;
          u1 = (if Password \<in> modifiedPaths doc
                then u\<lparr>password := slowHash d (password u)\<rparr> else u);
          u2 = (if ResetPasswordCode \<in> modifiedPaths doc
                then u1\<lparr>resetPasswordCode :=
                          map_option (\<lambda>rc. rc\<lparr>code := sha256 d (code rc)\<rparr>)
                            (resetPasswordCode u1)\<rparr>
                else u1)
      in doc\<lparr>data := u2\<rparr>)"

definition writePaths :: "path set \<Rightarrow> user \<Rightarrow> user \<Rightarrow> user" where
  \<comment> \<open>the stored document after the modified paths of \<open>mem\<close> are written to it\<close>
  "writePaths ps mem stored =
     stored\<lparr>password := (if Password \<in> ps then password mem else password stored),
            resetPasswordCode :=
              (if ResetPasswordCode \<in> ps then resetPasswordCode mem
               else resetPasswordCode stored),
            resetPasswordToken :=
              (if ResetPasswordToken \<in> ps then resetPasswordToken mem
               else resetPasswordToken stored),
            resetPasswordCodeGuessCount :=
              (if ResetPasswordCodeGuessCount \<in> ps then resetPasswordCodeGuessCount mem
               else resetPasswordCodeGuessCount stored)\<rparr>"

definition save :: "deps \<Rightarrow> document \<Rightarrow> user list \<Rightarrow> document \<times> user list" where
  \<comment> \<open>\<^verbatim>\<open>user.save()\<close>: the hook runs, then the modified paths (and only those) are
      written to the stored document with the same \<^verbatim>\<open>_id\<close>\<close>
  "save d doc db =
     (let doc' = preSave d doc
      in (doc'\<lparr>modifiedPaths := {}\<rparr>,
          db[doc_id doc' := writePaths (modifiedPaths doc') (data doc') (db ! doc_id doc')]))"

section \<open>Errors\<close>

text \<open>
  One constructor for each message the modelled statics throw; the two
  \<^verbatim>\<open>throw\<close> statements of \<^verbatim>\<open>findByCreds\<close> carry the same
  translation key and are one constructor. \<open>RuntimeTypeError\<close> is what reading
  \<^verbatim>\<open>.token\<close> of an undefined \<^verbatim>\<open>resetPasswordToken\<close> raises.
  \<open>kind\<close> gives the failure kind of the error taxonomy (section 7 of the spec);
  a runtime error has none and is \<open>Unclassified\<close>.
\<close>

datatype error =
    WrongCredentials
  | UserNotFound string
  | NoCodeReceived
  | NoCodeRequested string
  | TooManyAttempts
  | CodeNoLongerValid
  | HashedCodesDoNotMatch
  | NoTokenRequested string
  | TokenNoLongerValid
  | TokenInvalid
  | RuntimeTypeError

datatype failure =
  InvalidInput | NotFound | Expired | RateLimited | Mismatch | InvalidCredentials | Unclassified

fun kind :: "error \<Rightarrow> failure" where
  "kind WrongCredentials = InvalidCredentials"
| "kind (UserNotFound e) = NotFound"
| "kind NoCodeReceived = InvalidInput"
| "kind (NoCodeRequested e) = NotFound"
| "kind TooManyAttempts = RateLimited"
| "kind CodeNoLongerValid = Expired"
| "kind HashedCodesDoNotMatch = Mismatch"
| "kind (NoTokenRequested e) = NotFound"
| "kind TokenNoLongerValid = Expired"
| "kind TokenInvalid = Mismatch"
| "kind RuntimeTypeError = Unclassified"

section \<open>Strings\<close>

text \<open>
  What \<^verbatim>\<open>toLowerCase\<close> and \<^verbatim>\<open>trim\<close> do on ASCII strings, for
  the concrete instance below: the letters A to Z are mapped to a to z and every other
  character is kept; the white space that is trimmed at both ends is tab, line feed,
  vertical tab, form feed, carriage return and space. The statics are not modelled with
  these two functions but with the parameters \<open>toLowerCase\<close> and \<open>trim\<close>.
\<close>

definition ascii_lowerChar :: "char \<Rightarrow> char" where
  "ascii_lowerChar c =
     (case map_of (zip ''ABCDEFGHIJKLMNOPQRSTUVWXYZ'' ''abcdefghijklmnopqrstuvwxyz'') c of
        Some l \<Rightarrow> l
      | None \<Rightarrow> c)"

definition ascii_toLowerCase :: "string \<Rightarrow> string" where
  "ascii_toLowerCase s = map ascii_lowerChar s"

definition ascii_isWhiteSpace :: "char \<Rightarrow> bool" where
  "ascii_isWhiteSpace c = ((of_char c :: nat) \<in> {9, 10, 11, 12, 13, 32})"

definition ascii_trim :: "string \<Rightarrow> string" where
  "ascii_trim s = rev (dropWhile ascii_isWhiteSpace (rev (dropWhile ascii_isWhiteSpace s)))"

section \<open>The statics\<close>

definition findByCreds ::
  "deps \<Rightarrow> (user \<Rightarrow> 'pub) \<Rightarrow> (nat \<Rightarrow> 'tok) \<Rightarrow> string \<Rightarrow> string \<Rightarrow> user list
     \<Rightarrow> error + ('pub \<times> 'tok)" where
  \<comment> \<open>\<open>getPublic\<close> is the user method of that name and \<open>generate\<close> is
      \<^verbatim>\<open>AuthTokens.generate\<close>, which writes to another collection\<close>
  "findByCreds d getPublic generate em pw db =
     (case findOne (\<lambda>u. email u = trim d (toLowerCase d em)) db of
        None \<Rightarrow> Inl WrongCredentials
      | Some usr \<Rightarrow>
          if \<not> bcrypt_compare d pw (password (data usr)) then Inl WrongCredentials
          else Inr (getPublic (data usr), generate (doc_id usr)))"

definition findByEmailAndRequestResetPasswordCode ::
  "deps \<Rightarrow> env \<Rightarrow> string \<Rightarrow> user list \<Rightarrow> (error + unit) \<times> user list" where
  "findByEmailAndRequestResetPasswordCode d ev em db =
     (case findOne (\<lambda>u. email u = em) db of
        None \<Rightarrow> (Inl (UserNotFound em), db)
      | Some usr \<Rightarrow>
          let usr1 = assign_resetPasswordCode
                       (Some \<lparr>code = generateVerificationCode ev (RESET_PASSWORD_CODE_LENGTH d),
                              codeRequestedAt = dates ev 0\<rparr>) usr;
              usr2 = assign_resetPasswordToken None usr1;
              usr3 = assign_resetPasswordCodeGuessCount 0 usr2
          in (Inr (), snd (save d usr3 db)))"

definition findByEmailAndRequestResetPasswordToken ::
  "deps \<Rightarrow> env \<Rightarrow> string \<Rightarrow> string option \<Rightarrow> user list \<Rightarrow> (error + string) \<times> user list" where
  \<comment> \<open>the submitted code is \<open>None\<close> when the caller passes \<^verbatim>\<open>undefined\<close>\<close>
  "findByEmailAndRequestResetPasswordToken d ev em cd db =
     (case cd of
        None \<Rightarrow> (Inl NoCodeReceived, db)
      | Some c \<Rightarrow>
         (case findOne (\<lambda>u. email u = em) db of
            None \<Rightarrow> (Inl (NoCodeRequested em), db)
          | Some usr \<Rightarrow>
             (case resetPasswordCode (data usr) of
                None \<Rightarrow> (Inl (NoCodeRequested em), db)
              | Some rc \<Rightarrow>
                  if resetPasswordCodeGuessCount (data usr) \<ge> RESET_PASSWORD_MAX_GUESS_COUNT d
                  then (Inl TooManyAttempts, db)
                  else if dates ev 0 - codeRequestedAt rc
                            > RESET_PASSWORD_CODE_TIME_PERIOD_LENGTH d
                  then (Inl CodeNoLongerValid, db)
                  else
                    let hashedInput = sha256 d c in
                    if code rc \<noteq> hashedInput
                    then
                      let usr1 = assign_resetPasswordCodeGuessCount
                                   (resetPasswordCodeGuessCount (data usr) + 1) usr
                      in (Inl HashedCodesDoNotMatch, snd (save d usr1 db))
                    else
                      let usr1 = assign_resetPasswordToken
                                   (Some \<lparr>token = hashString d
                                             (code rc @ toISOString d (dates ev 1) @
                                              generateVerificationCode ev
                                                (RESET_PASSWORD_TOKEN_RANDOM_NUM_LENGTH d)),
                                          tokenRequestedAt = dates ev 2\<rparr>) usr;
                          db1 = update_unset_resetPasswordCode usr1 db;
                          (usr2, db2) = save d usr1 db1
                      in (case resetPasswordToken (data usr2) of
                            Some rt \<Rightarrow> (Inr (token rt), db2)
                          | None \<Rightarrow> (Inl RuntimeTypeError, db2)))))"

definition findByEmailAndResetPassword ::
  "deps \<Rightarrow> env \<Rightarrow> string \<Rightarrow> string option \<Rightarrow> string \<Rightarrow> user list
     \<Rightarrow> (error + user) \<times> user list" where
  \<comment> \<open>the submitted token is \<open>None\<close> when the caller passes \<^verbatim>\<open>undefined\<close>;
      the value returned is the in-memory document after \<^verbatim>\<open>save()\<close>\<close>
  "findByEmailAndResetPassword d ev em tk pw db =
     (case tk of
        None \<Rightarrow> (Inl NoCodeReceived, db)
      | Some t \<Rightarrow>
         (case findOne (\<lambda>u. email u = em) db of
            None \<Rightarrow> (Inl (NoTokenRequested em), db)
          | Some usr \<Rightarrow>
             (case resetPasswordToken (data usr) of
                None \<Rightarrow> (Inl (NoTokenRequested em), db)
              | Some rt \<Rightarrow>
                  if dates ev 0 - tokenRequestedAt rt
                       > RESET_PASSWORD_TOKEN_TIME_PERIOD_LENGTH d
                  then (Inl TokenNoLongerValid, db)
                  else if t \<noteq> token rt then (Inl TokenInvalid, db)
                  else
                    let usr1 = assign_password pw usr;
                        db1 = update_unset_resetPasswordToken usr1 db;
                        (usr2, db2) = save d usr1 db1
                    in (Inr (data usr2), db2))))"

section \<open>Sequences of calls\<close>

text \<open>
  The calls a client can make, each with what it observes of the clock and the random
  generator, and the collection after one call and after a sequence of calls.
  \<^verbatim>\<open>findByCreds\<close> writes nothing to the user collection.
\<close>

datatype request =
    RequestResetCode env string
  | VerifyResetCode env string "string option"
  | CommitNewPassword env string "string option" string
  | Login string string

fun step :: "deps \<Rightarrow> request \<Rightarrow> user list \<Rightarrow> user list" where
  "step d (RequestResetCode ev em) db = snd (findByEmailAndRequestResetPasswordCode d ev em db)"
| "step d (VerifyResetCode ev em cd) db =
     snd (findByEmailAndRequestResetPasswordToken d ev em cd db)"
| "step d (CommitNewPassword ev em tk pw) db =
     snd (findByEmailAndResetPassword d ev em tk pw db)"
| "step d (Login em pw) db = db"

fun run :: "deps \<Rightarrow> request list \<Rightarrow> user list \<Rightarrow> user list" where
  "run d [] db = db"
| "run d (r # rs) db = run d rs (step d r db)"

fun requestsCodeFor :: "string \<Rightarrow> request \<Rightarrow> bool" where
  "requestsCodeFor em (RequestResetCode ev em') = (em' = em)"
| "requestsCodeFor em r = False"

definition atMostOnePending :: "user \<Rightarrow> bool" where
  "atMostOnePending u = (resetPasswordCode u = None \<or> resetPasswordToken u = None)"

section \<open>The token verifier as the spec words it\<close>


section \<open>A concrete instance\<close>

text \<open>
  Stand-ins for the hash functions, the two string functions on ASCII strings, the
  constants of the scenarios of the spec
  (three guesses, 300 seconds for a code and for a token, codes of 8 digits, 30 random
  digits in a token), a clock that shows the same time at every reading of one call, and a
  collection of two users.
\<close>

definition example_deps :: deps where
  "example_deps =
     \<lparr>sha256 = (\<lambda>s. ''sha256('' @ s @ '')''),
      hashString = (\<lambda>s. ''hash('' @ s @ '')''),
      slowHash = (\<lambda>s. ''bcrypt('' @ s @ '')''),
      bcrypt_compare = (\<lambda>p h. h = ''bcrypt('' @ p @ '')''),
      toISOString = (\<lambda>t. ''T'' @ replicate (nat (t div 1000)) (CHR ''s'') @ ''Z''),
      toLowerCase = ascii_toLowerCase,
      trim = ascii_trim,
      RESET_PASSWORD_CODE_LENGTH = 8,
      RESET_PASSWORD_MAX_GUESS_COUNT = 3,
      RESET_PASSWORD_CODE_TIME_PERIOD_LENGTH = 300000,
      RESET_PASSWORD_TOKEN_RANDOM_NUM_LENGTH = 30,
      RESET_PASSWORD_TOKEN_TIME_PERIOD_LENGTH = 300000\<rparr>"

definition example_env :: "int \<Rightarrow> env" where
  "example_env t =
     \<lparr>dates = (\<lambda>k. t),
      generateVerificationCode =
        (\<lambda>n. if n = 8 then ''12345678'' else ''123456781234567812345678123456'')\<rparr>"

definition example_user :: "string \<Rightarrow> user" where
  "example_user em =
     \<lparr>email = em, password = ''bcrypt(correct)'', resetPasswordCode = None,
      resetPasswordToken = None, resetPasswordCodeGuessCount = 0\<rparr>"

definition example_db :: "user list" where
  "example_db = [example_user ''other@example.com'', example_user ''user@example.com'']"

definition example_pending :: "int \<Rightarrow> int \<Rightarrow> user list" where
  \<comment> \<open>the second user holds the hash of the code 12345678, issued at time \<open>t0\<close>, with
      \<open>n\<close> failed guesses\<close>
  "example_pending t0 n =
     [example_user ''other@example.com'',
      (example_user ''user@example.com'')
        \<lparr>resetPasswordCode := Some \<lparr>code = ''sha256(12345678)'', codeRequestedAt = t0\<rparr>,
         resetPasswordCodeGuessCount := n\<rparr>]"

definition example_issued :: "user list" where
  \<comment> \<open>the second user after the code 12345678 was verified 10 seconds after its issue\<close>
  "example_issued =
     [example_user ''other@example.com'',
      (example_user ''user@example.com'')
        \<lparr>resetPasswordToken :=
           Some \<lparr>token = ''hash(sha256(12345678)TssssssssssZ123456781234567812345678123456)'',
                 tokenRequestedAt = 10000\<rparr>\<rparr>]"

definition example_dup :: "user list" where
  \<comment> \<open>two users whose emails differ by letter case only\<close>
  "example_dup = [example_user ''user@example.com'', example_user ''User@Example.com'']"

definition example_doc :: "user list \<Rightarrow> document" where
  \<comment> \<open>the second user as \<^verbatim>\<open>findOne\<close> loads it\<close>
  "example_doc db = \<lparr>doc_id = 1, data = db ! 1, modifiedPaths = {}\<rparr>"

section \<open>Lookup\<close>

lemma findFrom_SomeD:
  "findFrom k P db = Some usr \<Longrightarrow>
     k \<le> doc_id usr \<and> doc_id usr - k < length db \<and> data usr = db ! (doc_id usr - k) \<and>
     P (db ! (doc_id usr - k)) \<and> modifiedPaths usr = {} \<and> (\<forall>j < doc_id usr - k. \<not> P (db ! j))"
proof (induction db arbitrary: k)
  case Nil
  then show ?case by simp
next
  case (Cons u us)
  show ?case
  proof (cases "P u")
    case True
    with Cons.prems show ?thesis by auto
  next
    case False
    with Cons.prems have f: "findFrom (Suc k) P us = Some usr" by simp
    from Cons.IH[OF f] have ih: "Suc k \<le> doc_id usr" "doc_id usr - Suc k < length us"
      "data usr = us ! (doc_id usr - Suc k)" "P (us ! (doc_id usr - Suc k))"
      "modifiedPaths usr = {}" "\<forall>j < doc_id usr - Suc k. \<not> P (us ! j)" by auto
    from ih(1) have e: "doc_id usr - k = Suc (doc_id usr - Suc k)" by simp
    show ?thesis using ih False unfolding e by (auto simp: nth_Cons split: nat.splits)
  qed
qed

lemma findFrom_None_iff: "findFrom k P db = None \<longleftrightarrow> (\<forall>u \<in> set db. \<not> P u)"
  by (induction db arbitrary: k) auto

lemma findFrom_cong:
  "length db' = length db \<Longrightarrow> \<forall>j < length db. P (db' ! j) = P (db ! j) \<Longrightarrow>
   findFrom k P db' = map_option (\<lambda>doc. doc\<lparr>data := db' ! (doc_id doc - k)\<rparr>) (findFrom k P db)"
proof (induction db arbitrary: k db')
  case Nil
  then show ?case by simp
next
  case (Cons u us)
  then obtain u' us' where d: "db' = u' # us'" by (cases db') auto
  with Cons.prems have l: "length us' = length us" and p0: "P u' = P u"
    and pr: "\<forall>j < length us. P (us' ! j) = P (us ! j)" by auto
  show ?case
  proof (cases "P u")
    case True
    with p0 d show ?thesis by simp
  next
    case False
    have "findFrom (Suc k) P us' =
        map_option (\<lambda>doc. doc\<lparr>data := us' ! (doc_id doc - Suc k)\<rparr>) (findFrom (Suc k) P us)"
      by (rule Cons.IH[OF l pr])
    moreover have "\<And>doc. findFrom (Suc k) P us = Some doc \<Longrightarrow>
        us' ! (doc_id doc - Suc k) = (u' # us') ! (doc_id doc - k)"
      by (drule findFrom_SomeD) (auto simp: Suc_diff_le)
    ultimately show ?thesis using False p0 d
      by (cases "findFrom (Suc k) P us") auto
  qed
qed

lemma findOne_SomeD:
  "findOne P db = Some usr \<Longrightarrow>
     doc_id usr < length db \<and> data usr = db ! doc_id usr \<and> P (db ! doc_id usr) \<and>
     modifiedPaths usr = {} \<and> (\<forall>j < doc_id usr. \<not> P (db ! j))"
  unfolding findOne_def by (drule findFrom_SomeD) simp

lemma findOne_None_iff: "findOne P db = None \<longleftrightarrow> (\<forall>u \<in> set db. \<not> P u)"
  unfolding findOne_def by (rule findFrom_None_iff)

lemma findOne_email_cong:
  assumes "map email db' = map email db"
  shows "findOne (\<lambda>u. email u = em) db' =
         map_option (\<lambda>doc. doc\<lparr>data := db' ! doc_id doc\<rparr>) (findOne (\<lambda>u. email u = em) db)"
proof -
  from assms have l: "length db' = length db" by (metis length_map)
  have "\<forall>j < length db. (email (db' ! j) = em) = (email (db ! j) = em)"
  proof (intro allI impI)
    fix j assume "j < length db"
    with l have "email (db' ! j) = map email db' ! j" "email (db ! j) = map email db ! j"
      by simp_all
    with assms show "(email (db' ! j) = em) = (email (db ! j) = em)" by simp
  qed
  from findFrom_cong[OF l this, of 0] show ?thesis by (simp add: findOne_def)
qed

section \<open>What each call does to the collection\<close>

lemmas store_defs = save_def preSave_def writePaths_def assign_password_def
  assign_resetPasswordCode_def assign_resetPasswordToken_def
  assign_resetPasswordCodeGuessCount_def update_unset_resetPasswordCode_def
  update_unset_resetPasswordToken_def

lemma request_found:
  assumes "findOne (\<lambda>u. email u = em) db = Some usr"
  shows "findByEmailAndRequestResetPasswordCode d ev em db =
     (Inr (), db[doc_id usr := (data usr)
        \<lparr>resetPasswordCode :=
           Some \<lparr>code = sha256 d (generateVerificationCode ev (RESET_PASSWORD_CODE_LENGTH d)),
                 codeRequestedAt = dates ev 0\<rparr>,
         resetPasswordToken := None,
         resetPasswordCodeGuessCount := 0\<rparr>])"
proof -
  from findOne_SomeD[OF assms] have m: "modifiedPaths usr = {}"
    and s: "db ! doc_id usr = data usr" by simp_all
  show ?thesis
    by (simp add: findByEmailAndRequestResetPasswordCode_def assms store_defs m s)
qed

lemma request_not_found:
  "findOne (\<lambda>u. email u = em) db = None \<Longrightarrow>
   findByEmailAndRequestResetPasswordCode d ev em db = (Inl (UserNotFound em), db)"
  by (simp add: findByEmailAndRequestResetPasswordCode_def)

lemma verify_locked:
  assumes "findOne (\<lambda>u. email u = em) db = Some usr"
    and "resetPasswordCode (data usr) = Some rc"
    and "RESET_PASSWORD_MAX_GUESS_COUNT d \<le> resetPasswordCodeGuessCount (data usr)"
  shows "findByEmailAndRequestResetPasswordToken d ev em (Some c) db = (Inl TooManyAttempts, db)"
  using assms by (simp add: findByEmailAndRequestResetPasswordToken_def)

lemma verify_expired:
  assumes "findOne (\<lambda>u. email u = em) db = Some usr"
    and "resetPasswordCode (data usr) = Some rc"
    and "resetPasswordCodeGuessCount (data usr) < RESET_PASSWORD_MAX_GUESS_COUNT d"
    and "RESET_PASSWORD_CODE_TIME_PERIOD_LENGTH d < dates ev 0 - codeRequestedAt rc"
  shows "findByEmailAndRequestResetPasswordToken d ev em (Some c) db = (Inl CodeNoLongerValid, db)"
  using assms by (simp add: findByEmailAndRequestResetPasswordToken_def)

lemma verify_mismatch:
  assumes f: "findOne (\<lambda>u. email u = em) db = Some usr"
    and "resetPasswordCode (data usr) = Some rc"
    and "resetPasswordCodeGuessCount (data usr) < RESET_PASSWORD_MAX_GUESS_COUNT d"
    and "dates ev 0 - codeRequestedAt rc \<le> RESET_PASSWORD_CODE_TIME_PERIOD_LENGTH d"
    and "code rc \<noteq> sha256 d c"
  shows "findByEmailAndRequestResetPasswordToken d ev em (Some c) db =
     (Inl HashedCodesDoNotMatch,
      db[doc_id usr := (data usr)
        \<lparr>resetPasswordCodeGuessCount := resetPasswordCodeGuessCount (data usr) + 1\<rparr>])"
proof -
  from findOne_SomeD[OF f] have m: "modifiedPaths usr = {}"
    and s: "db ! doc_id usr = data usr" by simp_all
  have "findByEmailAndRequestResetPasswordToken d ev em (Some c) db =
     (Inl HashedCodesDoNotMatch,
      db[doc_id usr := writePaths {ResetPasswordCodeGuessCount}
         ((data usr)\<lparr>resetPasswordCodeGuessCount := resetPasswordCodeGuessCount (data usr) + 1\<rparr>)
         (data usr)])"
    using assms
    by (simp add: findByEmailAndRequestResetPasswordToken_def save_def preSave_def
        assign_resetPasswordCodeGuessCount_def m s)
  then show ?thesis by (simp add: writePaths_def)
qed

lemma verify_match:
  assumes f: "findOne (\<lambda>u. email u = em) db = Some usr"
    and "resetPasswordCode (data usr) = Some rc"
    and "resetPasswordCodeGuessCount (data usr) < RESET_PASSWORD_MAX_GUESS_COUNT d"
    and "dates ev 0 - codeRequestedAt rc \<le> RESET_PASSWORD_CODE_TIME_PERIOD_LENGTH d"
    and "code rc = sha256 d c"
  shows "findByEmailAndRequestResetPasswordToken d ev em (Some c) db =
     (Inr (hashString d (code rc @ toISOString d (dates ev 1) @
             generateVerificationCode ev (RESET_PASSWORD_TOKEN_RANDOM_NUM_LENGTH d))),
      db[doc_id usr := (data usr)
        \<lparr>resetPasswordCode := None,
         resetPasswordToken :=
           Some \<lparr>token = hashString d (code rc @ toISOString d (dates ev 1) @
                    generateVerificationCode ev (RESET_PASSWORD_TOKEN_RANDOM_NUM_LENGTH d)),
                 tokenRequestedAt = dates ev 2\<rparr>\<rparr>])"
proof -
  from findOne_SomeD[OF f] have m: "modifiedPaths usr = {}"
    and s: "db ! doc_id usr = data usr" and l: "doc_id usr < length db" by simp_all
  show ?thesis using assms
    by (simp add: findByEmailAndRequestResetPasswordToken_def store_defs m s l)
qed

lemma verify_no_request:
  assumes "findOne (\<lambda>u. email u = em) db = None \<or>
           (\<exists>usr. findOne (\<lambda>u. email u = em) db = Some usr \<and> resetPasswordCode (data usr) = None)"
  shows "findByEmailAndRequestResetPasswordToken d ev em (Some c) db = (Inl (NoCodeRequested em), db)"
  using assms by (auto simp add: findByEmailAndRequestResetPasswordToken_def)

lemma verify_undefined:
  "findByEmailAndRequestResetPasswordToken d ev em None db = (Inl NoCodeReceived, db)"
  by (simp add: findByEmailAndRequestResetPasswordToken_def)

lemma commit_undefined:
  "findByEmailAndResetPassword d ev em None pw db = (Inl NoCodeReceived, db)"
  by (simp add: findByEmailAndResetPassword_def)

lemma commit_no_request:
  assumes "findOne (\<lambda>u. email u = em) db = None \<or>
           (\<exists>usr. findOne (\<lambda>u. email u = em) db = Some usr \<and> resetPasswordToken (data usr) = None)"
  shows "findByEmailAndResetPassword d ev em (Some t) pw db = (Inl (NoTokenRequested em), db)"
  using assms by (auto simp add: findByEmailAndResetPassword_def)

lemma commit_expired:
  assumes "findOne (\<lambda>u. email u = em) db = Some usr"
    and "resetPasswordToken (data usr) = Some rt"
    and "RESET_PASSWORD_TOKEN_TIME_PERIOD_LENGTH d < dates ev 0 - tokenRequestedAt rt"
  shows "findByEmailAndResetPassword d ev em (Some t) pw db = (Inl TokenNoLongerValid, db)"
  using assms by (simp add: findByEmailAndResetPassword_def)

lemma commit_mismatch:
  assumes "findOne (\<lambda>u. email u = em) db = Some usr"
    and "resetPasswordToken (data usr) = Some rt"
    and "dates ev 0 - tokenRequestedAt rt \<le> RESET_PASSWORD_TOKEN_TIME_PERIOD_LENGTH d"
    and "t \<noteq> token rt"
  shows "findByEmailAndResetPassword d ev em (Some t) pw db = (Inl TokenInvalid, db)"
  using assms by (simp add: findByEmailAndResetPassword_def)

lemma commit_match:
  assumes f: "findOne (\<lambda>u. email u = em) db = Some usr"
    and "resetPasswordToken (data usr) = Some rt"
    and "dates ev 0 - tokenRequestedAt rt \<le> RESET_PASSWORD_TOKEN_TIME_PERIOD_LENGTH d"
    and "t = token rt"
  shows "findByEmailAndResetPassword d ev em (Some t) pw db =
     (Inr ((data usr)\<lparr>password := (if pw = password (data usr) then pw else slowHash d pw)\<rparr>),
      db[doc_id usr := (data usr)
        \<lparr>password := (if pw = password (data usr) then pw else slowHash d pw),
         resetPasswordToken := None\<rparr>])"
proof (cases "pw = password (data usr)")
  case True
  from findOne_SomeD[OF f] have m: "modifiedPaths usr = {}"
    and s: "db ! doc_id usr = data usr" and l: "doc_id usr < length db" by simp_all
  have "findByEmailAndResetPassword d ev em (Some t) pw db =
     (Inr (data usr),
      db[doc_id usr := writePaths {} (data usr) ((data usr)\<lparr>resetPasswordToken := None\<rparr>)])"
    using assms True
    by (simp add: findByEmailAndResetPassword_def save_def preSave_def
        assign_password_def update_unset_resetPasswordToken_def m s l)
  with True show ?thesis by (simp add: writePaths_def)
next
  case False
  from findOne_SomeD[OF f] have m: "modifiedPaths usr = {}"
    and s: "db ! doc_id usr = data usr" and l: "doc_id usr < length db" by simp_all
  have "findByEmailAndResetPassword d ev em (Some t) pw db =
     (Inr ((data usr)\<lparr>password := slowHash d pw\<rparr>),
      db[doc_id usr := writePaths {Password} ((data usr)\<lparr>password := slowHash d pw\<rparr>)
         ((data usr)\<lparr>resetPasswordToken := None\<rparr>)])"
    using assms False
    by (simp add: findByEmailAndResetPassword_def save_def preSave_def
        assign_password_def update_unset_resetPasswordToken_def m s l)
  with False show ?thesis by (simp add: writePaths_def)
qed

lemma step_cases [case_names same request mismatch match commit]:
  assumes same: "step d r db = db \<Longrightarrow> thesis"
    and request: "\<And>ev em usr. r = RequestResetCode ev em \<Longrightarrow>
        findOne (\<lambda>u. email u = em) db = Some usr \<Longrightarrow>
        step d r db = db[doc_id usr := (data usr)
          \<lparr>resetPasswordCode :=
             Some \<lparr>code = sha256 d (generateVerificationCode ev (RESET_PASSWORD_CODE_LENGTH d)),
                   codeRequestedAt = dates ev 0\<rparr>,
           resetPasswordToken := None,
           resetPasswordCodeGuessCount := 0\<rparr>] \<Longrightarrow> thesis"
    and mismatch: "\<And>ev em c usr rc. r = VerifyResetCode ev em (Some c) \<Longrightarrow>
        findOne (\<lambda>u. email u = em) db = Some usr \<Longrightarrow>
        resetPasswordCode (data usr) = Some rc \<Longrightarrow>
        resetPasswordCodeGuessCount (data usr) < RESET_PASSWORD_MAX_GUESS_COUNT d \<Longrightarrow>
        step d r db = db[doc_id usr := (data usr)
          \<lparr>resetPasswordCodeGuessCount := resetPasswordCodeGuessCount (data usr) + 1\<rparr>]
        \<Longrightarrow> thesis"
    and match: "\<And>ev em c usr rc tok. r = VerifyResetCode ev em (Some c) \<Longrightarrow>
        findOne (\<lambda>u. email u = em) db = Some usr \<Longrightarrow>
        resetPasswordCode (data usr) = Some rc \<Longrightarrow>
        resetPasswordCodeGuessCount (data usr) < RESET_PASSWORD_MAX_GUESS_COUNT d \<Longrightarrow>
        step d r db = db[doc_id usr := (data usr)
          \<lparr>resetPasswordCode := None, resetPasswordToken := Some tok\<rparr>] \<Longrightarrow> thesis"
    and commit: "\<And>ev em t pw usr p. r = CommitNewPassword ev em (Some t) pw \<Longrightarrow>
        findOne (\<lambda>u. email u = em) db = Some usr \<Longrightarrow>
        step d r db = db[doc_id usr := (data usr)
          \<lparr>password := p, resetPasswordToken := None\<rparr>] \<Longrightarrow> thesis"
  shows thesis
proof (cases r)
  case (RequestResetCode ev em)
  show ?thesis
  proof (cases "findOne (\<lambda>u. email u = em) db")
    case None
    with RequestResetCode show ?thesis by (intro same) (simp add: request_not_found)
  next
    case (Some usr)
    with RequestResetCode show ?thesis
      by (intro request[of ev em usr]) (simp_all add: request_found)
  qed
next
  case (VerifyResetCode ev em cd)
  show ?thesis
  proof (cases cd)
    case None
    with VerifyResetCode show ?thesis by (intro same) (simp add: verify_undefined)
  next
    case (Some c)
    note r = VerifyResetCode[unfolded Some]
    show ?thesis
    proof (cases "findOne (\<lambda>u. email u = em) db")
      case None
      with r show ?thesis by (intro same) (simp add: verify_no_request)
    next
      case found: (Some usr)
      show ?thesis
      proof (cases "resetPasswordCode (data usr)")
        case None
        with r found show ?thesis by (intro same) (simp add: verify_no_request)
      next
        case code: (Some rc)
        consider (locked) "RESET_PASSWORD_MAX_GUESS_COUNT d \<le> resetPasswordCodeGuessCount (data usr)"
          | (expired) "resetPasswordCodeGuessCount (data usr) < RESET_PASSWORD_MAX_GUESS_COUNT d"
              "RESET_PASSWORD_CODE_TIME_PERIOD_LENGTH d < dates ev 0 - codeRequestedAt rc"
          | (wrong) "resetPasswordCodeGuessCount (data usr) < RESET_PASSWORD_MAX_GUESS_COUNT d"
              "dates ev 0 - codeRequestedAt rc \<le> RESET_PASSWORD_CODE_TIME_PERIOD_LENGTH d"
              "code rc \<noteq> sha256 d c"
          | (right) "resetPasswordCodeGuessCount (data usr) < RESET_PASSWORD_MAX_GUESS_COUNT d"
              "dates ev 0 - codeRequestedAt rc \<le> RESET_PASSWORD_CODE_TIME_PERIOD_LENGTH d"
              "code rc = sha256 d c"
          by linarith
        then show ?thesis
        proof cases
          case locked
          with r found code show ?thesis by (intro same) (simp add: verify_locked)
        next
          case expired
          with r found code show ?thesis by (intro same) (simp add: verify_expired)
        next
          case wrong
          with r found code show ?thesis
            by (intro mismatch[of ev em c usr rc]) (simp_all add: verify_mismatch)
        next
          case right
          from verify_match[OF found code right] r found code right(1) show ?thesis
            by (intro match[of ev em c usr rc]) simp_all
        qed
      qed
    qed
  qed
next
  case (CommitNewPassword ev em tk pw)
  show ?thesis
  proof (cases tk)
    case None
    with CommitNewPassword show ?thesis by (intro same) (simp add: commit_undefined)
  next
    case (Some t)
    note r = CommitNewPassword[unfolded Some]
    show ?thesis
    proof (cases "findOne (\<lambda>u. email u = em) db")
      case None
      with r show ?thesis by (intro same) (simp add: commit_no_request)
    next
      case found: (Some usr)
      show ?thesis
      proof (cases "resetPasswordToken (data usr)")
        case None
        with r found show ?thesis by (intro same) (simp add: commit_no_request)
      next
        case tok: (Some rt)
        consider (expired) "RESET_PASSWORD_TOKEN_TIME_PERIOD_LENGTH d < dates ev 0 - tokenRequestedAt rt"
          | (wrong) "dates ev 0 - tokenRequestedAt rt \<le> RESET_PASSWORD_TOKEN_TIME_PERIOD_LENGTH d"
              "t \<noteq> token rt"
          | (right) "dates ev 0 - tokenRequestedAt rt \<le> RESET_PASSWORD_TOKEN_TIME_PERIOD_LENGTH d"
              "t = token rt"
          by linarith
        then show ?thesis
        proof cases
          case expired
          with r found tok show ?thesis by (intro same) (simp add: commit_expired)
        next
          case wrong
          with r found tok show ?thesis by (intro same) (simp add: commit_mismatch)
        next
          case right
          from commit_match[OF found tok right] r found show ?thesis
            by (intro commit[of ev em t pw usr
                  "if pw = password (data usr) then pw else slowHash d pw"]) simp_all
        qed
      qed
    qed
  qed
next
  case (Login em pw)
  then show ?thesis by (intro same) simp
qed

lemmas example_defs = example_deps_def example_env_def example_user_def example_db_def
  example_pending_def example_issued_def example_dup_def example_doc_def

lemma example_pending_found:
  "findOne (\<lambda>u. email u = ''user@example.com'') (example_pending t0 n) =
     Some (example_doc (example_pending t0 n))"
  by (simp add: findOne_def example_defs)

lemma example_pending_code:
  "resetPasswordCode (data (example_doc (example_pending t0 n))) =
     Some \<lparr>code = ''sha256(12345678)'', codeRequestedAt = t0\<rparr>"
  by (simp add: example_defs)

lemma verify_found:
  assumes found: "findOne (\<lambda>u. email u = em) db = Some usr"
    and code: "resetPasswordCode (data usr) = Some rc"
  shows "findByEmailAndRequestResetPasswordToken d ev em (Some c) db =
    (if RESET_PASSWORD_MAX_GUESS_COUNT d \<le> resetPasswordCodeGuessCount (data usr)
     then (Inl TooManyAttempts, db)
     else if RESET_PASSWORD_CODE_TIME_PERIOD_LENGTH d < dates ev 0 - codeRequestedAt rc
     then (Inl CodeNoLongerValid, db)
     else if code rc \<noteq> sha256 d c
     then (Inl HashedCodesDoNotMatch,
           db[doc_id usr := (data usr)
             \<lparr>resetPasswordCodeGuessCount := resetPasswordCodeGuessCount (data usr) + 1\<rparr>])
     else (Inr (hashString d (code rc @ toISOString d (dates ev 1) @
                  generateVerificationCode ev (RESET_PASSWORD_TOKEN_RANDOM_NUM_LENGTH d))),
           db[doc_id usr := (data usr)
             \<lparr>resetPasswordCode := None,
              resetPasswordToken :=
                Some \<lparr>token = hashString d (code rc @ toISOString d (dates ev 1) @
                         generateVerificationCode ev (RESET_PASSWORD_TOKEN_RANDOM_NUM_LENGTH d)),
                      tokenRequestedAt = dates ev 2\<rparr>\<rparr>]))"
  using verify_locked[OF found code, where d=d and ev=ev and c=c]
    verify_expired[OF found code, where d=d and ev=ev and c=c]
    verify_mismatch[OF found code, where d=d and ev=ev and c=c]
    verify_match[OF found code, where d=d and ev=ev and c=c]
  by (simp add: not_le not_less)


section \<open>Verification of a reset code\<close>

text \<open>
  C1. For a user that exists and holds a pending reset code, and a submitted code that is
  not \<^verbatim>\<open>undefined\<close>, \<^verbatim>\<open>findByEmailAndRequestResetPasswordToken\<close>
  returns a token if and only if the \<^verbatim>\<open>sha256\<close> of the submitted code is the
  stored code, the age of the code at the first reading of the clock is at most
  \<^verbatim>\<open>RESET_PASSWORD_CODE_TIME_PERIOD_LENGTH\<close>, and the guess count is below
  \<^verbatim>\<open>RESET_PASSWORD_MAX_GUESS_COUNT\<close>; the token returned is the one the
  stored document holds after the call.
\<close>

theorem verify_succeeds_iff:
  assumes found: "findOne (\<lambda>u. email u = em) db = Some usr"
    and code: "resetPasswordCode (data usr) = Some rc"
  shows "((\<exists>tok. fst (findByEmailAndRequestResetPasswordToken d ev em (Some c) db) = Inr tok) \<longleftrightarrow>
            sha256 d c = code rc \<and>
            dates ev 0 - codeRequestedAt rc \<le> RESET_PASSWORD_CODE_TIME_PERIOD_LENGTH d \<and>
            resetPasswordCodeGuessCount (data usr) < RESET_PASSWORD_MAX_GUESS_COUNT d) \<and>
         (\<forall>tok. fst (findByEmailAndRequestResetPasswordToken d ev em (Some c) db) = Inr tok \<longrightarrow>
            map_option token (resetPasswordToken
              (snd (findByEmailAndRequestResetPasswordToken d ev em (Some c) db) ! doc_id usr))
            = Some tok)"
proof -
  from findOne_SomeD[OF found] have l: "doc_id usr < length db" by simp
  show ?thesis unfolding verify_found[OF found code] using l by auto
qed

theorem verify_succeeds_iff_witness:
  "findOne (\<lambda>u. email u = ''user@example.com'') (example_pending 0 0) =
     Some (example_doc (example_pending 0 0)) \<and>
   resetPasswordCode (data (example_doc (example_pending 0 0))) =
     Some \<lparr>code = ''sha256(12345678)'', codeRequestedAt = 0\<rparr> \<and>
   (\<exists>tok. fst (findByEmailAndRequestResetPasswordToken example_deps (example_env 10000)
       ''user@example.com'' (Some ''12345678'') (example_pending 0 0)) = Inr tok) \<and>
   \<not> (\<exists>tok. fst (findByEmailAndRequestResetPasswordToken example_deps (example_env 10000)
       ''user@example.com'' (Some ''87654321'') (example_pending 0 0)) = Inr tok) \<and>
   \<not> (\<exists>tok. fst (findByEmailAndRequestResetPasswordToken example_deps (example_env 300001)
       ''user@example.com'' (Some ''12345678'') (example_pending 0 0)) = Inr tok) \<and>
   \<not> (\<exists>tok. fst (findByEmailAndRequestResetPasswordToken example_deps (example_env 10000)
       ''user@example.com'' (Some ''12345678'') (example_pending 0 3)) = Inr tok)"
  using
    verify_succeeds_iff[OF example_pending_found[of 0 0] example_pending_code[of 0 0],
      where d=example_deps and ev="example_env 10000" and c="''12345678''"]
    verify_succeeds_iff[OF example_pending_found[of 0 0] example_pending_code[of 0 0],
      where d=example_deps and ev="example_env 10000" and c="''87654321''"]
    verify_succeeds_iff[OF example_pending_found[of 0 0] example_pending_code[of 0 0],
      where d=example_deps and ev="example_env 300001" and c="''12345678''"]
    verify_succeeds_iff[OF example_pending_found[of 0 3] example_pending_code[of 0 3],
      where d=example_deps and ev="example_env 10000" and c="''12345678''"]
  by (simp add: example_pending_found example_pending_code) (simp add: example_defs)

text \<open>
  C2. Whenever \<^verbatim>\<open>findByEmailAndRequestResetPasswordToken\<close> returns a token,
  the token is \<^verbatim>\<open>hashString\<close> applied to the concatenation of the stored code
  (which is the \<^verbatim>\<open>sha256\<close> of the submitted one), the ISO string of the second
  reading of the clock and the string the random generator returns for
  \<^verbatim>\<open>RESET_PASSWORD_TOKEN_RANDOM_NUM_LENGTH\<close>; the stored document then holds
  that token with the third reading of the clock as \<^verbatim>\<open>resetPasswordToken\<close>
  and has no \<^verbatim>\<open>resetPasswordCode\<close>; nothing else in the collection changes.
\<close>

theorem token_derivation:
  assumes ok: "fst (findByEmailAndRequestResetPasswordToken d ev em cd db) = Inr tok"
  shows "\<exists>usr rc c.
           findOne (\<lambda>u. email u = em) db = Some usr \<and>
           resetPasswordCode (data usr) = Some rc \<and>
           cd = Some c \<and> code rc = sha256 d c \<and>
           tok = hashString d (code rc @ toISOString d (dates ev 1) @
                   generateVerificationCode ev (RESET_PASSWORD_TOKEN_RANDOM_NUM_LENGTH d)) \<and>
           snd (findByEmailAndRequestResetPasswordToken d ev em cd db) =
             db[doc_id usr := (data usr)
                 \<lparr>resetPasswordCode := None,
                  resetPasswordToken := Some \<lparr>token = tok, tokenRequestedAt = dates ev 2\<rparr>\<rparr>]"
proof (cases cd)
  case None
  with ok show ?thesis by (simp add: verify_undefined)
next
  case (Some c)
  show ?thesis
  proof (cases "findOne (\<lambda>u. email u = em) db")
    case None
    with ok Some show ?thesis by (simp add: verify_no_request)
  next
    case found: (Some usr)
    show ?thesis
    proof (cases "resetPasswordCode (data usr)")
      case None
      with ok Some found show ?thesis by (simp add: verify_no_request)
    next
      case code: (Some rc)
      from ok show ?thesis unfolding Some verify_found[OF found code]
        by (auto simp: found code split: if_splits)
    qed
  qed
qed

theorem token_derivation_witness:
  "fst (findByEmailAndRequestResetPasswordToken example_deps (example_env 10000)
          ''user@example.com'' (Some ''12345678'') (example_pending 0 2)) =
     Inr ''hash(sha256(12345678)TssssssssssZ123456781234567812345678123456)'' \<and>
   snd (findByEmailAndRequestResetPasswordToken example_deps (example_env 10000)
          ''user@example.com'' (Some ''12345678'') (example_pending 0 2)) ! 1 =
     \<lparr>email = ''user@example.com'', password = ''bcrypt(correct)'', resetPasswordCode = None,
      resetPasswordToken =
        Some \<lparr>token = ''hash(sha256(12345678)TssssssssssZ123456781234567812345678123456)'',
              tokenRequestedAt = 10000\<rparr>,
      resetPasswordCodeGuessCount = 2\<rparr>"
proof -
  have ok: "fst (findByEmailAndRequestResetPasswordToken example_deps (example_env 10000)
          ''user@example.com'' (Some ''12345678'') (example_pending 0 2)) =
     Inr ''hash(sha256(12345678)TssssssssssZ123456781234567812345678123456)''"
    unfolding verify_found[OF example_pending_found example_pending_code]
    by (simp add: example_defs eval_nat_numeral)
  from token_derivation[OF ok] ok show ?thesis
    by (auto simp: example_pending_found) (simp add: example_defs)
qed

text \<open>
  C4, as amended. When the pending code is older than
  \<^verbatim>\<open>RESET_PASSWORD_CODE_TIME_PERIOD_LENGTH\<close>, a submitted code (the correct
  one or any other) is rejected and the collection is unchanged: with the error of kind
  \<open>Expired\<close> when the guess count is below
  \<^verbatim>\<open>RESET_PASSWORD_MAX_GUESS_COUNT\<close>, and with the error of kind
  \<open>RateLimited\<close> when it is not, because the guess count is checked first.
\<close>

theorem expired_code_rejected:
  assumes found: "findOne (\<lambda>u. email u = em) db = Some usr"
    and code: "resetPasswordCode (data usr) = Some rc"
    and old: "RESET_PASSWORD_CODE_TIME_PERIOD_LENGTH d < dates ev 0 - codeRequestedAt rc"
  shows "findByEmailAndRequestResetPasswordToken d ev em (Some c) db =
           (Inl (if resetPasswordCodeGuessCount (data usr) < RESET_PASSWORD_MAX_GUESS_COUNT d
                 then CodeNoLongerValid else TooManyAttempts), db) \<and>
         kind CodeNoLongerValid = Expired \<and> kind TooManyAttempts = RateLimited"
  unfolding verify_found[OF found code] using old by simp

theorem expired_code_rejected_witness:
  "RESET_PASSWORD_CODE_TIME_PERIOD_LENGTH example_deps
     < dates (example_env 301000) 0 - 0 \<and>
   findByEmailAndRequestResetPasswordToken example_deps (example_env 301000)
     ''user@example.com'' (Some ''12345678'') (example_pending 0 2) =
     (Inl CodeNoLongerValid, example_pending 0 2)"
proof -
  have old: "RESET_PASSWORD_CODE_TIME_PERIOD_LENGTH example_deps
     < dates (example_env 301000) 0 - codeRequestedAt \<lparr>code = ''sha256(12345678)'', codeRequestedAt = 0\<rparr>"
    by (simp add: example_defs)
  from expired_code_rejected[OF example_pending_found example_pending_code old,
      where c="''12345678''"] old
  show ?thesis by (simp add: example_defs)
qed

text \<open>
  The claim C4 as it was stated, "expired regardless of the guess count", fails: with the
  limit of three guesses reached, the correct code submitted 301 seconds after the issue is
  rejected with \<open>TooManyAttempts\<close>.
\<close>

theorem expired_code_counterexample:
  "RESET_PASSWORD_CODE_TIME_PERIOD_LENGTH example_deps
     < dates (example_env 301000) 0 - 0 \<and>
   sha256 example_deps ''12345678'' = ''sha256(12345678)'' \<and>
   fst (findByEmailAndRequestResetPasswordToken example_deps (example_env 301000)
     ''user@example.com'' (Some ''12345678'') (example_pending 0 3)) = Inl TooManyAttempts \<and>
   kind TooManyAttempts \<noteq> Expired"
  unfolding verify_found[OF example_pending_found example_pending_code]
  by (simp add: example_defs)

section \<open>Issuing a reset code\<close>

text \<open>
  C8. For an email that the lookup finds,
  \<^verbatim>\<open>findByEmailAndRequestResetPasswordCode\<close> succeeds, and the stored
  document afterwards has the guess count 0, no \<^verbatim>\<open>resetPasswordToken\<close>, and
  as \<^verbatim>\<open>resetPasswordCode\<close> the hash of the string generated for
  \<^verbatim>\<open>RESET_PASSWORD_CODE_LENGTH\<close> with the time of the call; email and
  password are kept and no other document changes. The hash is applied by the pre-save hook.
\<close>

theorem request_issues_code:
  assumes found: "findOne (\<lambda>u. email u = em) db = Some usr"
  shows "fst (findByEmailAndRequestResetPasswordCode d ev em db) = Inr () \<and>
         length (snd (findByEmailAndRequestResetPasswordCode d ev em db)) = length db \<and>
         snd (findByEmailAndRequestResetPasswordCode d ev em db) ! doc_id usr =
           \<lparr>email = em, password = password (data usr),
            resetPasswordCode =
              Some \<lparr>code = sha256 d (generateVerificationCode ev (RESET_PASSWORD_CODE_LENGTH d)),
                    codeRequestedAt = dates ev 0\<rparr>,
            resetPasswordToken = None,
            resetPasswordCodeGuessCount = 0\<rparr> \<and>
         (\<forall>j. j \<noteq> doc_id usr \<longrightarrow>
            snd (findByEmailAndRequestResetPasswordCode d ev em db) ! j = db ! j)"
proof -
  from findOne_SomeD[OF found] have l: "doc_id usr < length db"
    and e: "email (data usr) = em" by simp_all
  show ?thesis unfolding request_found[OF found] using l e by auto
qed

theorem request_issues_code_witness:
  "findOne (\<lambda>u. email u = ''user@example.com'') (example_pending 0 3) =
     Some (example_doc (example_pending 0 3)) \<and>
   fst (findByEmailAndRequestResetPasswordCode example_deps (example_env 400000)
     ''user@example.com'' (example_pending 0 3)) = Inr () \<and>
   snd (findByEmailAndRequestResetPasswordCode example_deps (example_env 400000)
     ''user@example.com'' (example_pending 0 3)) ! 1 =
     \<lparr>email = ''user@example.com'', password = ''bcrypt(correct)'',
      resetPasswordCode = Some \<lparr>code = ''sha256(12345678)'', codeRequestedAt = 400000\<rparr>,
      resetPasswordToken = None, resetPasswordCodeGuessCount = 0\<rparr> \<and>
   snd (findByEmailAndRequestResetPasswordCode example_deps (example_env 400000)
     ''user@example.com'' (example_pending 0 3)) ! 0 = example_user ''other@example.com''"
  using request_issues_code[OF example_pending_found[of 0 3],
        where d=example_deps and ev="example_env 400000"]
  by (simp add: example_pending_found) (simp add: example_defs)

lemma example_normalise:
  "trim example_deps (toLowerCase example_deps ''User@Example.com '') = ''user@example.com''"
  "trim example_deps (toLowerCase example_deps ''User@Example.com'') = ''user@example.com''"
  "trim example_deps (toLowerCase example_deps ''user@example.com'') = ''user@example.com''"
  "trim example_deps (toLowerCase example_deps ''absent@example.com'') = ''absent@example.com''"
  by (simp_all add: example_deps_def ascii_trim_def ascii_toLowerCase_def ascii_lowerChar_def
      ascii_isWhiteSpace_def)

section \<open>Committing a new password\<close>





section \<open>Login\<close>

text \<open>
  C9. \<^verbatim>\<open>findByCreds\<close> looks the user up by the lower-cased, trimmed email.
  It fails with the same error, of kind \<open>InvalidCredentials\<close>, when no user has that
  email and when \<^verbatim>\<open>bcrypt.compare\<close> rejects the password; otherwise it
  returns the public view of the user and the token generated for its id. This holds for
  every string, \<^verbatim>\<open>toLowerCase\<close> and \<^verbatim>\<open>trim\<close> being the
  functions JavaScript provides.
\<close>

theorem login_generic_failure:
  "(findOne (\<lambda>u. email u = trim d (toLowerCase d em)) db = None \<longrightarrow>
      findByCreds d getPublic generate em pw db = Inl WrongCredentials) \<and>
   (\<forall>usr. findOne (\<lambda>u. email u = trim d (toLowerCase d em)) db = Some usr \<and>
          \<not> bcrypt_compare d pw (password (data usr)) \<longrightarrow>
      findByCreds d getPublic generate em pw db = Inl WrongCredentials) \<and>
   (\<forall>usr. findOne (\<lambda>u. email u = trim d (toLowerCase d em)) db = Some usr \<and>
          bcrypt_compare d pw (password (data usr)) \<longrightarrow>
      findByCreds d getPublic generate em pw db =
        Inr (getPublic (data usr), generate (doc_id usr))) \<and>
   kind WrongCredentials = InvalidCredentials"
  by (simp add: findByCreds_def)

theorem login_generic_failure_witness:
  "trim example_deps (toLowerCase example_deps ''User@Example.com '') = ''user@example.com'' \<and>
   findByCreds example_deps email Suc ''User@Example.com '' ''correct'' example_db =
     Inr (''user@example.com'', 2) \<and>
   findByCreds example_deps email Suc ''user@example.com'' ''wrong'' example_db =
     Inl WrongCredentials \<and>
   findByCreds example_deps email Suc ''absent@example.com'' ''x'' example_db =
     Inl WrongCredentials"
proof -
  have f1: "findOne (\<lambda>u. email u = ''user@example.com'') example_db =
      Some (example_doc example_db)"
    and f3: "findOne (\<lambda>u. email u = ''absent@example.com'') example_db = None"
    by (simp_all add: findOne_def example_defs)
  have p: "bcrypt_compare example_deps ''correct'' (password (data (example_doc example_db)))"
    and q: "\<not> bcrypt_compare example_deps ''wrong'' (password (data (example_doc example_db)))"
    by (simp_all add: example_defs)
  have e: "email (data (example_doc example_db)) = ''user@example.com''"
    "Suc (doc_id (example_doc example_db)) = 2"
    by (simp_all add: example_defs)
  from login_generic_failure[where em="''User@Example.com ''" and db=example_db
      and d=example_deps and pw="''correct''" and getPublic=email and generate=Suc]
    login_generic_failure[where em="''user@example.com''" and db=example_db
      and d=example_deps and pw="''wrong''" and getPublic=email and generate=Suc]
    login_generic_failure[where em="''absent@example.com''" and db=example_db
      and d=example_deps and pw="''x''" and getPublic=email and generate=Suc]
  show ?thesis unfolding example_normalise f1 f3 using p q e by simp
qed

section \<open>Exact lookup in the reset flow\<close>

text \<open>
  C10, as amended. The three reset statics look the user up by the submitted string as it
  is. When the lower-cased, trimmed form of the submitted email is the email of a stored
  user and no stored user has the submitted string itself as its email, each of the three
  fails with its error of kind \<open>NotFound\<close> and writes nothing, while
  \<^verbatim>\<open>findByCreds\<close> with the same string finds a user with that stored email
  and succeeds when the password matches.
\<close>

theorem reset_lookup_is_exact:
  assumes u: "u \<in> set db"
    and same: "trim d (toLowerCase d em) = email u"
    and absent: "\<forall>v \<in> set db. email v \<noteq> em"
  shows "em \<noteq> email u \<and>
         findByEmailAndRequestResetPasswordCode d ev em db = (Inl (UserNotFound em), db) \<and>
         findByEmailAndRequestResetPasswordToken d ev em (Some c) db =
           (Inl (NoCodeRequested em), db) \<and>
         findByEmailAndResetPassword d ev em (Some t) pw db = (Inl (NoTokenRequested em), db) \<and>
         kind (UserNotFound em) = NotFound \<and> kind (NoCodeRequested em) = NotFound \<and>
         kind (NoTokenRequested em) = NotFound \<and>
         (\<exists>usr. findOne (\<lambda>v. email v = trim d (toLowerCase d em)) db = Some usr \<and>
            email (data usr) = email u \<and>
            findByCreds d getPublic generate em pw' db =
              (if bcrypt_compare d pw' (password (data usr))
               then Inr (getPublic (data usr), generate (doc_id usr))
               else Inl WrongCredentials))"
proof -
  from absent have none: "findOne (\<lambda>v. email v = em) db = None"
    by (simp add: findOne_None_iff)
  from u absent have differs: "em \<noteq> email u" by auto
  from u same have "findOne (\<lambda>v. email v = trim d (toLowerCase d em)) db \<noteq> None"
    by (auto simp: findOne_None_iff)
  then obtain usr where usr: "findOne (\<lambda>v. email v = trim d (toLowerCase d em)) db = Some usr"
    by auto
  from findOne_SomeD[OF usr] same have e: "email (data usr) = email u" by simp
  show ?thesis
    using none usr e differs
    by (simp add: request_not_found verify_no_request commit_no_request findByCreds_def)
qed

theorem reset_lookup_is_exact_witness:
  "example_issued ! 1 \<in> set example_issued \<and>
   trim example_deps (toLowerCase example_deps ''User@Example.com '') =
     email (example_issued ! 1) \<and>
   list_all (\<lambda>v. email v \<noteq> ''User@Example.com '') example_issued \<and>
   fst (findByEmailAndRequestResetPasswordCode example_deps (example_env 11000)
          ''User@Example.com '' example_issued) = Inl (UserNotFound ''User@Example.com '') \<and>
   fst (findByEmailAndResetPassword example_deps (example_env 11000) ''User@Example.com ''
          (Some ''hash(sha256(12345678)TssssssssssZ123456781234567812345678123456)'') ''new''
          example_issued) = Inl (NoTokenRequested ''User@Example.com '') \<and>
   findByCreds example_deps email Suc ''User@Example.com '' ''correct'' example_issued =
     Inr (''user@example.com'', 2)"
proof -
  have em: "email (example_issued ! 1) = ''user@example.com''"
    "email (example_issued ! 0) = ''other@example.com''"
    by (simp_all add: example_defs)
  have set: "set example_issued = {example_issued ! 0, example_issued ! 1}"
    by (simp add: example_issued_def)
  have absent: "\<forall>v \<in> set example_issued. email v \<noteq> ''User@Example.com ''"
    unfolding set by (simp only: ball_simps em) simp
  have u: "example_issued ! 1 \<in> set example_issued" unfolding set by simp
  have same: "trim example_deps (toLowerCase example_deps ''User@Example.com '') =
      email (example_issued ! 1)"
    by (simp only: em example_normalise)
  have f: "findOne (\<lambda>v. email v = ''user@example.com'') example_issued =
      Some (example_doc example_issued)"
    by (simp add: findOne_def example_defs)
  note T = reset_lookup_is_exact[OF u same absent, where
      ev="example_env 11000" and pw="''new''" and pw'="''correct''"
      and getPublic=email and generate=Suc
      and t="''hash(sha256(12345678)TssssssssssZ123456781234567812345678123456)''"]
  from T have r1: "fst (findByEmailAndRequestResetPasswordCode example_deps (example_env 11000)
          ''User@Example.com '' example_issued) = Inl (UserNotFound ''User@Example.com '')"
    by (simp only: fst_conv)
  from T have r3: "fst (findByEmailAndResetPassword example_deps (example_env 11000)
          ''User@Example.com ''
          (Some ''hash(sha256(12345678)TssssssssssZ123456781234567812345678123456)'') ''new''
          example_issued) = Inl (NoTokenRequested ''User@Example.com '')"
    by (simp only: fst_conv)
  from T[unfolded example_normalise f] have r4: "findByCreds example_deps email Suc
      ''User@Example.com '' ''correct'' example_issued =
      (if bcrypt_compare example_deps ''correct'' (password (data (example_doc example_issued)))
       then Inr (email (data (example_doc example_issued)), Suc (doc_id (example_doc example_issued)))
       else Inl WrongCredentials)"
    by blast
  have r5: "findByCreds example_deps email Suc ''User@Example.com '' ''correct'' example_issued =
     Inr (''user@example.com'', 2)"
    unfolding r4 by (simp add: example_defs)
  from u same absent r1 r3 r5 show ?thesis unfolding list_all_iff by (intro conjI)
qed

text \<open>
  The claim C10 as it was stated, for every stored user and every email that differs from
  the stored one by letter case or white space only, fails when another stored user has the
  submitted spelling as its email: the request for a code then succeeds for that other
  user.
\<close>

theorem reset_lookup_counterexample:
  "example_dup ! 0 \<in> set example_dup \<and>
   trim example_deps (toLowerCase example_deps ''User@Example.com'') = email (example_dup ! 0) \<and>
   ''User@Example.com'' \<noteq> email (example_dup ! 0) \<and>
   fst (findByEmailAndRequestResetPasswordCode example_deps (example_env 0)
          ''User@Example.com'' example_dup) = Inr () \<and>
   findByCreds example_deps email Suc ''User@Example.com'' ''correct'' example_dup =
     Inr (''user@example.com'', 1)"
proof -
  have f: "findOne (\<lambda>v. email v = ''User@Example.com'') example_dup =
      Some (example_doc example_dup)"
    by (simp add: findOne_def example_defs)
  have g: "findOne (\<lambda>v. email v = ''user@example.com'') example_dup =
      Some \<lparr>doc_id = 0, data = example_dup ! 0, modifiedPaths = {}\<rparr>"
    by (simp add: findOne_def example_defs)
  have 1: "fst (findByEmailAndRequestResetPasswordCode example_deps (example_env 0)
          ''User@Example.com'' example_dup) = Inr ()"
    unfolding request_found[OF f] by simp
  have 2: "findByCreds example_deps email Suc ''User@Example.com'' ''correct'' example_dup =
     Inr (''user@example.com'', 1)"
    unfolding findByCreds_def example_normalise g by (simp add: example_defs)
  have 3: "email (example_dup ! 0) = ''user@example.com''" by (simp add: example_defs)
  have 4: "example_dup ! 0 \<in> set example_dup" by (simp add: example_dup_def)
  from 1 2 4 show ?thesis unfolding 3 example_normalise by simp
qed

section \<open>One call after another\<close>

lemma map_email_update:
  "i < length db \<Longrightarrow> email x = email (db ! i) \<Longrightarrow> map email (db[i := x]) = map email db"
  by (simp add: map_update) (metis list_update_id nth_map length_map)

lemma step_emails: "map email (step d r db) = map email db"
proof (cases d r db rule: step_cases)
  case same
  then show ?thesis by simp
next
  case (request ev em usr)
  from findOne_SomeD[OF request(2)] request(3) show ?thesis
    by (simp add: map_email_update)
next
  case (mismatch ev em c usr rc)
  from findOne_SomeD[OF mismatch(2)] mismatch(5) show ?thesis
    by (simp add: map_email_update)
next
  case (match ev em c usr rc tok)
  from findOne_SomeD[OF match(2)] match(5) show ?thesis
    by (simp add: map_email_update)
next
  case (commit ev em t pw usr p)
  from findOne_SomeD[OF commit(2)] commit(3) show ?thesis
    by (simp add: map_email_update)
qed

lemma step_length: "length (step d r db) = length db"
  using step_emails[of d r db] by (metis length_map)

lemma step_atMostOnePending:
  assumes inv: "\<forall>u \<in> set db. atMostOnePending u"
  shows "\<forall>u \<in> set (step d r db). atMostOnePending u"
proof (cases d r db rule: step_cases)
  case same
  with inv show ?thesis by simp
next
  case (request ev em usr)
  show ?thesis unfolding request(3) using inv
    by (auto simp: atMostOnePending_def dest!: set_update_subset_insert[THEN subsetD])
next
  case (mismatch ev em c usr rc)
  from findOne_SomeD[OF mismatch(2)] have "data usr \<in> set db" by simp
  with inv have "atMostOnePending (data usr)" by simp
  then show ?thesis unfolding mismatch(5) using inv
    by (auto simp: atMostOnePending_def dest!: set_update_subset_insert[THEN subsetD])
next
  case (match ev em c usr rc tok)
  show ?thesis unfolding match(5) using inv
    by (auto simp: atMostOnePending_def dest!: set_update_subset_insert[THEN subsetD])
next
  case (commit ev em t pw usr p)
  show ?thesis unfolding commit(3) using inv
    by (auto simp: atMostOnePending_def dest!: set_update_subset_insert[THEN subsetD])
qed

lemma step_count_mono:
  assumes nr: "\<forall>em. \<not> requestsCodeFor em r"
    and j: "j < length db"
  shows "resetPasswordCodeGuessCount (db ! j) \<le> resetPasswordCodeGuessCount (step d r db ! j)"
proof (cases d r db rule: step_cases)
  case same
  then show ?thesis by simp
next
  case (request ev em usr)
  with nr show ?thesis by auto
next
  case (mismatch ev em c usr rc)
  from findOne_SomeD[OF mismatch(2)] j show ?thesis unfolding mismatch(5)
    by (cases "j = doc_id usr") auto
next
  case (match ev em c usr rc tok)
  from findOne_SomeD[OF match(2)] j show ?thesis unfolding match(5)
    by (cases "j = doc_id usr") auto
next
  case (commit ev em t pw usr p)
  from findOne_SomeD[OF commit(2)] j show ?thesis unfolding commit(3)
    by (cases "j = doc_id usr") auto
qed


lemma step_locked:
  assumes found: "findOne (\<lambda>u. email u = em) db = Some usr"
    and code: "resetPasswordCode (data usr) \<noteq> None"
    and locked: "RESET_PASSWORD_MAX_GUESS_COUNT d \<le> resetPasswordCodeGuessCount (data usr)"
    and nr: "\<not> requestsCodeFor em r"
  shows "\<exists>usr'. findOne (\<lambda>u. email u = em) (step d r db) = Some usr' \<and>
           doc_id usr' = doc_id usr \<and>
           resetPasswordCode (data usr') \<noteq> None \<and>
           RESET_PASSWORD_MAX_GUESS_COUNT d \<le> resetPasswordCodeGuessCount (data usr')"
proof -
  let ?i = "doc_id usr"
  from findOne_SomeD[OF found] have i: "?i < length db" and s: "data usr = db ! ?i"
    and e: "email (db ! ?i) = em" by simp_all
  have keep: "resetPasswordCode (step d r db ! ?i) = resetPasswordCode (db ! ?i) \<and>
      resetPasswordCodeGuessCount (step d r db ! ?i) = resetPasswordCodeGuessCount (db ! ?i)"
  proof (cases d r db rule: step_cases)
    case same
    then show ?thesis by simp
  next
    case (request ev em' usr')
    with nr have "em' \<noteq> em" by auto
    with findOne_SomeD[OF request(2)] e have "doc_id usr' \<noteq> ?i" by auto
    then show ?thesis unfolding request(3) by simp
  next
    case (mismatch ev em' c usr' rc)
    have "em' \<noteq> em"
    proof
      assume "em' = em"
      with mismatch(2) found have "usr' = usr" by simp
      with mismatch(4) locked show False by simp
    qed
    with findOne_SomeD[OF mismatch(2)] e have "doc_id usr' \<noteq> ?i" by auto
    then show ?thesis unfolding mismatch(5) by simp
  next
    case (match ev em' c usr' rc tok)
    have "em' \<noteq> em"
    proof
      assume "em' = em"
      with match(2) found have "usr' = usr" by simp
      with match(4) locked show False by simp
    qed
    with findOne_SomeD[OF match(2)] e have "doc_id usr' \<noteq> ?i" by auto
    then show ?thesis unfolding match(5) by simp
  next
    case (commit ev em' t pw usr' p)
    from findOne_SomeD[OF commit(2)] show ?thesis unfolding commit(3)
      by (cases "doc_id usr' = ?i") auto
  qed
  from findOne_email_cong[OF step_emails, of em d r db] found
  have "findOne (\<lambda>u. email u = em) (step d r db) = Some (usr\<lparr>data := step d r db ! ?i\<rparr>)"
    by simp
  with keep code locked s show ?thesis by simp
qed

lemma run_locked:
  assumes found: "findOne (\<lambda>u. email u = em) db = Some usr"
    and code: "resetPasswordCode (data usr) \<noteq> None"
    and locked: "RESET_PASSWORD_MAX_GUESS_COUNT d \<le> resetPasswordCodeGuessCount (data usr)"
    and nr: "\<forall>r \<in> set rs. \<not> requestsCodeFor em r"
  shows "\<exists>usr'. findOne (\<lambda>u. email u = em) (run d rs db) = Some usr' \<and>
           doc_id usr' = doc_id usr \<and>
           resetPasswordCode (data usr') \<noteq> None \<and>
           RESET_PASSWORD_MAX_GUESS_COUNT d \<le> resetPasswordCodeGuessCount (data usr')"
  using assms
proof (induction rs arbitrary: db usr)
  case Nil
  then show ?case by simp
next
  case (Cons r rs)
  from Cons.prems have "\<not> requestsCodeFor em r" by simp
  from step_locked[OF Cons.prems(1-3) this]
  obtain usr' where u: "findOne (\<lambda>u. email u = em) (step d r db) = Some usr'"
    "doc_id usr' = doc_id usr" "resetPasswordCode (data usr') \<noteq> None"
    "RESET_PASSWORD_MAX_GUESS_COUNT d \<le> resetPasswordCodeGuessCount (data usr')"
    by blast
  from Cons.prems have "\<forall>r \<in> set rs. \<not> requestsCodeFor em r" by simp
  from Cons.IH[OF u(1) u(3) u(4) this] u(2) show ?case by simp
qed

lemma run_atMostOnePending:
  "\<forall>u \<in> set db. atMostOnePending u \<Longrightarrow> \<forall>u \<in> set (run d rs db). atMostOnePending u"
proof (induction rs arbitrary: db)
  case Nil
  then show ?case by simp
next
  case (Cons r rs)
  from step_atMostOnePending[OF Cons.prems] have "\<forall>u \<in> set (step d r db). atMostOnePending u" .
  from Cons.IH[OF this] show ?case by simp
qed

lemma example_run:
  "run example_deps
     [RequestResetCode (example_env 0) ''user@example.com'',
      VerifyResetCode (example_env 10000) ''user@example.com'' (Some ''12345678'')]
     example_db = example_issued"
proof -
  have f: "findOne (\<lambda>u. email u = ''user@example.com'') example_db =
      Some (example_doc example_db)"
    by (simp add: findOne_def example_defs)
  have 1: "step example_deps (RequestResetCode (example_env 0) ''user@example.com'') example_db =
      example_pending 0 0"
    unfolding step.simps request_found[OF f] by (simp add: example_defs)
  have 2: "step example_deps
      (VerifyResetCode (example_env 10000) ''user@example.com'' (Some ''12345678''))
      (example_pending 0 0) = example_issued"
    unfolding step.simps verify_found[OF example_pending_found example_pending_code]
    by (simp add: example_defs eval_nat_numeral)
  show ?thesis by (simp only: run.simps 1 2)
qed

section \<open>The guess limit\<close>

text \<open>
  C5. Once a user holds a pending code and its guess count has reached
  \<^verbatim>\<open>RESET_PASSWORD_MAX_GUESS_COUNT\<close>, then after any sequence of calls that
  does not request a new code for that email (verifications with any code at any time,
  commits, logins, requests for other emails) a verification for that email at any time,
  with the correct code or any other, fails with \<open>TooManyAttempts\<close>, of kind
  \<open>RateLimited\<close>, and writes nothing; a request for a new code for that email sets the
  guess count to 0.
\<close>

theorem lockout_persists:
  assumes found: "findOne (\<lambda>u. email u = em) db = Some usr"
    and code: "resetPasswordCode (data usr) \<noteq> None"
    and locked: "RESET_PASSWORD_MAX_GUESS_COUNT d \<le> resetPasswordCodeGuessCount (data usr)"
    and nr: "\<forall>r \<in> set rs. \<not> requestsCodeFor em r"
  shows "findByEmailAndRequestResetPasswordToken d ev em (Some c) (run d rs db) =
           (Inl TooManyAttempts, run d rs db) \<and>
         kind TooManyAttempts = RateLimited \<and>
         resetPasswordCodeGuessCount
           (snd (findByEmailAndRequestResetPasswordCode d ev' em (run d rs db)) ! doc_id usr) = 0"
proof -
  from run_locked[OF found code locked nr]
  obtain usr' where u: "findOne (\<lambda>u. email u = em) (run d rs db) = Some usr'"
    "doc_id usr' = doc_id usr" "resetPasswordCode (data usr') \<noteq> None"
    "RESET_PASSWORD_MAX_GUESS_COUNT d \<le> resetPasswordCodeGuessCount (data usr')"
    by blast
  from u(3) obtain rc where rc: "resetPasswordCode (data usr') = Some rc" by auto
  from findOne_SomeD[OF u(1)] have l: "doc_id usr' < length (run d rs db)" by simp
  from verify_locked[OF u(1) rc u(4)] request_found[OF u(1)] l u(2) show ?thesis by simp
qed

theorem lockout_persists_witness:
  "findOne (\<lambda>u. email u = ''user@example.com'') (example_pending 0 3) =
     Some (example_doc (example_pending 0 3)) \<and>
   resetPasswordCode (data (example_doc (example_pending 0 3))) \<noteq> None \<and>
   RESET_PASSWORD_MAX_GUESS_COUNT example_deps
     \<le> resetPasswordCodeGuessCount (data (example_doc (example_pending 0 3))) \<and>
   list_all (\<lambda>r. \<not> requestsCodeFor ''user@example.com'' r)
     [VerifyResetCode (example_env 4000) ''user@example.com'' (Some ''12345678''),
      VerifyResetCode (example_env 5000) ''user@example.com'' (Some ''00000000''),
      CommitNewPassword (example_env 6000) ''user@example.com'' (Some ''t'') ''new'',
      Login ''user@example.com'' ''correct'',
      RequestResetCode (example_env 7000) ''other@example.com''] \<and>
   fst (findByEmailAndRequestResetPasswordToken example_deps (example_env 8000)
     ''user@example.com'' (Some ''12345678'')
     (run example_deps
        [VerifyResetCode (example_env 4000) ''user@example.com'' (Some ''12345678''),
         VerifyResetCode (example_env 5000) ''user@example.com'' (Some ''00000000''),
         CommitNewPassword (example_env 6000) ''user@example.com'' (Some ''t'') ''new'',
         Login ''user@example.com'' ''correct'',
         RequestResetCode (example_env 7000) ''other@example.com'']
        (example_pending 0 3))) = Inl TooManyAttempts"
proof -
  have code: "resetPasswordCode (data (example_doc (example_pending 0 3))) \<noteq> None"
    by (simp add: example_pending_code)
  have locked: "RESET_PASSWORD_MAX_GUESS_COUNT example_deps
     \<le> resetPasswordCodeGuessCount (data (example_doc (example_pending 0 3)))"
    by (simp add: example_defs)
  have nr: "\<forall>r \<in> set [VerifyResetCode (example_env 4000) ''user@example.com'' (Some ''12345678''),
               VerifyResetCode (example_env 5000) ''user@example.com'' (Some ''00000000''),
               CommitNewPassword (example_env 6000) ''user@example.com'' (Some ''t'') ''new'',
               Login ''user@example.com'' ''correct'',
               RequestResetCode (example_env 7000) ''other@example.com''].
      \<not> requestsCodeFor ''user@example.com'' r"
    by simp
  from lockout_persists[OF example_pending_found code locked nr,
      where ev="example_env 8000" and c="''12345678''"]
  have "fst (findByEmailAndRequestResetPasswordToken example_deps (example_env 8000)
     ''user@example.com'' (Some ''12345678'')
     (run example_deps
        [VerifyResetCode (example_env 4000) ''user@example.com'' (Some ''12345678''),
         VerifyResetCode (example_env 5000) ''user@example.com'' (Some ''00000000''),
         CommitNewPassword (example_env 6000) ''user@example.com'' (Some ''t'') ''new'',
         Login ''user@example.com'' ''correct'',
         RequestResetCode (example_env 7000) ''other@example.com'']
        (example_pending 0 3))) = Inl TooManyAttempts"
    by (simp only: fst_conv)
  with example_pending_found[of 0 3] code locked nr show ?thesis
    unfolding list_all_iff by (intro conjI)
qed

text \<open>
  C6, as amended. A verification that fails with \<open>HashedCodesDoNotMatch\<close> (kind
  \<open>Mismatch\<close>) adds exactly 1 to the guess count of the user and changes nothing
  else; a verification that fails with any other error writes nothing. No call other than a
  request for a new code lowers the guess count of any stored user, and a request for a new
  code sets the guess count of its user to 0.
\<close>

theorem guess_count_changes:
  "(\<forall>e. fst (findByEmailAndRequestResetPasswordToken d ev em cd db) = Inl e \<longrightarrow>
      (if e = HashedCodesDoNotMatch
       then \<exists>usr. findOne (\<lambda>u. email u = em) db = Some usr \<and>
              snd (findByEmailAndRequestResetPasswordToken d ev em cd db) =
                db[doc_id usr := (data usr)
                  \<lparr>resetPasswordCodeGuessCount := resetPasswordCodeGuessCount (data usr) + 1\<rparr>]
       else snd (findByEmailAndRequestResetPasswordToken d ev em cd db) = db)) \<and>
   (\<forall>j. (\<forall>em'. \<not> requestsCodeFor em' r) \<and> j < length db \<longrightarrow>
      resetPasswordCodeGuessCount (db ! j) \<le> resetPasswordCodeGuessCount (step d r db ! j)) \<and>
   (\<forall>usr. findOne (\<lambda>u. email u = em) db = Some usr \<longrightarrow>
      resetPasswordCodeGuessCount (step d (RequestResetCode ev em) db ! doc_id usr) = 0)"
proof (intro conjI allI impI)
  fix e assume fail: "fst (findByEmailAndRequestResetPasswordToken d ev em cd db) = Inl e"
  show "if e = HashedCodesDoNotMatch
       then \<exists>usr. findOne (\<lambda>u. email u = em) db = Some usr \<and>
              snd (findByEmailAndRequestResetPasswordToken d ev em cd db) =
                db[doc_id usr := (data usr)
                  \<lparr>resetPasswordCodeGuessCount := resetPasswordCodeGuessCount (data usr) + 1\<rparr>]
       else snd (findByEmailAndRequestResetPasswordToken d ev em cd db) = db"
  proof (cases cd)
    case None
    with fail show ?thesis by (auto simp add: verify_undefined)
  next
    case (Some c)
    show ?thesis
    proof (cases "findOne (\<lambda>u. email u = em) db")
      case None
      with fail Some show ?thesis by (auto simp add: verify_no_request)
    next
      case found: (Some usr)
      show ?thesis
      proof (cases "resetPasswordCode (data usr)")
        case None
        with fail Some found show ?thesis by (auto simp add: verify_no_request)
      next
        case code: (Some rc)
        from fail show ?thesis unfolding Some verify_found[OF found code]
          by (auto simp: found split: if_splits)
      qed
    qed
  qed
next
  fix j assume "(\<forall>em'. \<not> requestsCodeFor em' r) \<and> j < length db"
  then show "resetPasswordCodeGuessCount (db ! j)
      \<le> resetPasswordCodeGuessCount (step d r db ! j)"
    by (intro step_count_mono) simp_all
next
  fix usr assume f: "findOne (\<lambda>u. email u = em) db = Some usr"
  from findOne_SomeD[OF f] have "doc_id usr < length db" by simp
  with request_found[OF f, of d ev]
  show "resetPasswordCodeGuessCount (step d (RequestResetCode ev em) db ! doc_id usr) = 0"
    by simp
qed

theorem guess_count_changes_witness:
  "findByEmailAndRequestResetPasswordToken example_deps (example_env 1000) ''user@example.com''
     (Some ''00000000'') (example_pending 0 0) = (Inl HashedCodesDoNotMatch, example_pending 0 1) \<and>
   findByEmailAndRequestResetPasswordToken example_deps (example_env 2000) ''user@example.com''
     (Some ''11111111'') (example_pending 0 1) = (Inl HashedCodesDoNotMatch, example_pending 0 2) \<and>
   findByEmailAndRequestResetPasswordToken example_deps (example_env 3000) ''user@example.com''
     (Some ''22222222'') (example_pending 0 2) = (Inl HashedCodesDoNotMatch, example_pending 0 3) \<and>
   findByEmailAndRequestResetPasswordToken example_deps (example_env 4000) ''user@example.com''
     (Some ''12345678'') (example_pending 0 3) = (Inl TooManyAttempts, example_pending 0 3) \<and>
   resetPasswordCodeGuessCount
     (step example_deps (RequestResetCode (example_env 5000) ''user@example.com'')
        (example_pending 0 3) ! doc_id (example_doc (example_pending 0 3))) = 0"
proof -
  have f: "\<And>n c t. sha256 example_deps c \<noteq> ''sha256(12345678)'' \<Longrightarrow> n < 3 \<Longrightarrow> t \<le> 300000 \<Longrightarrow>
      fst (findByEmailAndRequestResetPasswordToken example_deps (example_env t)
        ''user@example.com'' (Some c) (example_pending 0 n)) = Inl HashedCodesDoNotMatch"
    unfolding verify_found[OF example_pending_found example_pending_code]
    by (simp add: example_defs)
  have g: "fst (findByEmailAndRequestResetPasswordToken example_deps (example_env 4000)
        ''user@example.com'' (Some ''12345678'') (example_pending 0 3)) = Inl TooManyAttempts"
    unfolding verify_found[OF example_pending_found example_pending_code]
    by (simp add: example_defs)
  have u: "\<And>n. (example_pending 0 n)[doc_id (example_doc (example_pending 0 n)) :=
      (data (example_doc (example_pending 0 n)))
        \<lparr>resetPasswordCodeGuessCount :=
           resetPasswordCodeGuessCount (data (example_doc (example_pending 0 n))) + 1\<rparr>] =
      example_pending 0 (n + 1)"
    by (simp add: example_defs)
  note T = guess_count_changes[where d=example_deps and em="''user@example.com''"]
  have 1: "snd (findByEmailAndRequestResetPasswordToken example_deps (example_env 1000)
        ''user@example.com'' (Some ''00000000'') (example_pending 0 0)) = example_pending 0 1"
    using T[where ev="example_env 1000" and cd="Some ''00000000''" and db="example_pending 0 0",
        THEN conjunct1, rule_format, OF f] u[of 0]
    by (simp add: example_pending_found example_deps_def)
  have 2: "snd (findByEmailAndRequestResetPasswordToken example_deps (example_env 2000)
        ''user@example.com'' (Some ''11111111'') (example_pending 0 1)) = example_pending 0 2"
    using T[where ev="example_env 2000" and cd="Some ''11111111''" and db="example_pending 0 1",
        THEN conjunct1, rule_format, OF f] u[of 1]
    by (simp add: example_pending_found example_deps_def)
  have 3: "snd (findByEmailAndRequestResetPasswordToken example_deps (example_env 3000)
        ''user@example.com'' (Some ''22222222'') (example_pending 0 2)) = example_pending 0 3"
    using T[where ev="example_env 3000" and cd="Some ''22222222''" and db="example_pending 0 2",
        THEN conjunct1, rule_format, OF f] u[of 2]
    by (simp add: example_pending_found example_deps_def)
  have 4: "snd (findByEmailAndRequestResetPasswordToken example_deps (example_env 4000)
        ''user@example.com'' (Some ''12345678'') (example_pending 0 3)) = example_pending 0 3"
    using T[where ev="example_env 4000" and cd="Some ''12345678''" and db="example_pending 0 3",
        THEN conjunct1, rule_format, OF g]
    by simp
  have 5: "resetPasswordCodeGuessCount
     (step example_deps (RequestResetCode (example_env 5000) ''user@example.com'')
        (example_pending 0 3) ! doc_id (example_doc (example_pending 0 3))) = 0"
    using T[where ev="example_env 5000" and db="example_pending 0 3",
        THEN conjunct2, THEN conjunct2, rule_format, OF example_pending_found] .
  have f1: "fst (findByEmailAndRequestResetPasswordToken example_deps (example_env 1000)
        ''user@example.com'' (Some ''00000000'') (example_pending 0 0)) = Inl HashedCodesDoNotMatch"
    by (rule f) (simp_all add: example_deps_def)
  have f2: "fst (findByEmailAndRequestResetPasswordToken example_deps (example_env 2000)
        ''user@example.com'' (Some ''11111111'') (example_pending 0 1)) = Inl HashedCodesDoNotMatch"
    by (rule f) (simp_all add: example_deps_def)
  have f3: "fst (findByEmailAndRequestResetPasswordToken example_deps (example_env 3000)
        ''user@example.com'' (Some ''22222222'') (example_pending 0 2)) = Inl HashedCodesDoNotMatch"
    by (rule f) (simp_all add: example_deps_def)
  from f1 f2 f3 g 1 2 3 4 5 show ?thesis by (simp add: prod_eq_iff)
qed

text \<open>
  The claim C6 as it was stated, "every failed verification adds 1", fails: a wrong code
  submitted 301 seconds after the issue is rejected with \<open>CodeNoLongerValid\<close> and
  the guess count stays 1.
\<close>

theorem guess_count_counterexample:
  "fst (findByEmailAndRequestResetPasswordToken example_deps (example_env 301000)
     ''user@example.com'' (Some ''00000000'') (example_pending 0 1)) = Inl CodeNoLongerValid \<and>
   resetPasswordCodeGuessCount (example_pending 0 1 ! 1) = 1 \<and>
   resetPasswordCodeGuessCount
     (snd (findByEmailAndRequestResetPasswordToken example_deps (example_env 301000)
        ''user@example.com'' (Some ''00000000'') (example_pending 0 1)) ! 1) = 1"
  unfolding verify_found[OF example_pending_found example_pending_code]
  by (simp add: example_defs)

section \<open>At most one of code and token\<close>

text \<open>
  C7. From a collection in which no user holds both a \<^verbatim>\<open>resetPasswordCode\<close>
  and a \<^verbatim>\<open>resetPasswordToken\<close>, every sequence of requests for a code,
  verifications, commits and logins leads to a collection with the same property. A request
  for a code leaves its user with a code and no token; a successful verification leaves its
  user with a token and no code.
\<close>

theorem at_most_one_pending:
  assumes inv: "\<forall>u \<in> set db. atMostOnePending u"
  shows "(\<forall>u \<in> set (run d rs db). atMostOnePending u) \<and>
         (\<forall>usr. findOne (\<lambda>u. email u = em) db = Some usr \<longrightarrow>
            resetPasswordCode (step d (RequestResetCode ev em) db ! doc_id usr) \<noteq> None \<and>
            resetPasswordToken (step d (RequestResetCode ev em) db ! doc_id usr) = None) \<and>
         (\<forall>usr tok. findOne (\<lambda>u. email u = em) db = Some usr \<and>
            fst (findByEmailAndRequestResetPasswordToken d ev em cd db) = Inr tok \<longrightarrow>
            resetPasswordToken (step d (VerifyResetCode ev em cd) db ! doc_id usr) \<noteq> None \<and>
            resetPasswordCode (step d (VerifyResetCode ev em cd) db ! doc_id usr) = None)"
proof (intro conjI allI impI)
  show "\<forall>u \<in> set (run d rs db). atMostOnePending u"
    by (rule run_atMostOnePending[OF inv])
next
  fix usr assume f: "findOne (\<lambda>u. email u = em) db = Some usr"
  from findOne_SomeD[OF f] have l: "doc_id usr < length db" by simp
  with request_found[OF f, of d ev]
  show "resetPasswordCode (step d (RequestResetCode ev em) db ! doc_id usr) \<noteq> None"
    and "resetPasswordToken (step d (RequestResetCode ev em) db ! doc_id usr) = None"
    by simp_all
next
  fix usr tok
  assume a: "findOne (\<lambda>u. email u = em) db = Some usr \<and>
            fst (findByEmailAndRequestResetPasswordToken d ev em cd db) = Inr tok"
  then have f: "findOne (\<lambda>u. email u = em) db = Some usr"
    and ok: "fst (findByEmailAndRequestResetPasswordToken d ev em cd db) = Inr tok" by simp_all
  from findOne_SomeD[OF f] have l: "doc_id usr < length db" by simp
  from ok obtain c where c: "cd = Some c" by (cases cd) (simp_all add: verify_undefined)
  from ok c f obtain rc where rc: "resetPasswordCode (data usr) = Some rc"
    by (cases "resetPasswordCode (data usr)") (simp_all add: verify_no_request)
  from ok l
  show "resetPasswordToken (step d (VerifyResetCode ev em cd) db ! doc_id usr) \<noteq> None"
    and "resetPasswordCode (step d (VerifyResetCode ev em cd) db ! doc_id usr) = None"
    unfolding c step.simps verify_found[OF f rc]
    by (simp_all split: if_splits)
qed

theorem at_most_one_pending_witness:
  "list_all atMostOnePending example_db \<and>
   run example_deps
     [RequestResetCode (example_env 0) ''user@example.com'',
      VerifyResetCode (example_env 10000) ''user@example.com'' (Some ''12345678'')]
     example_db = example_issued \<and>
   list_all atMostOnePending example_issued \<and>
   resetPasswordToken (example_issued ! 1) \<noteq> None"
proof -
  have inv: "\<forall>u \<in> set example_db. atMostOnePending u"
    by (simp add: example_defs atMostOnePending_def)
  from at_most_one_pending[OF inv, where d=example_deps and rs=
     "[RequestResetCode (example_env 0) ''user@example.com'',
       VerifyResetCode (example_env 10000) ''user@example.com'' (Some ''12345678'')]"]
  have "\<forall>u \<in> set example_issued. atMostOnePending u"
    unfolding example_run by (rule conjunct1)
  moreover have "resetPasswordToken (example_issued ! 1) \<noteq> None"
    by (simp add: example_defs)
  ultimately show ?thesis using inv example_run unfolding list_all_iff by (intro conjI)
qed

end
